theory Spec2Isabelle
  imports Complex_Main "HOL-Library.AList" "HOL-Library.Char_ord" "HOL-Library.List_Lexorder"
begin

section \<open>Shopping-list generation (src/lib/shopping-list-generator.ts)\<close>

text \<open>
  The development embeds \<^verbatim>\<open>generateShoppingList\<close> with explicit state passing.
  The state is the Supabase store the function talks to: the tables it reads and writes,
  the signed-in user, and a trace of the table requests issued so far.

  Conventions.
  \<^item> A JavaScript \<^verbatim>\<open>number\<close> is idealised as a real number (exact arithmetic, no
    rounding, no \<^verbatim>\<open>NaN\<close>); a nullable column is an \<open>option\<close>, \<open>None\<close> being
    \<^verbatim>\<open>null\<close>.
  \<^item> Strings are character lists. Calendar dates are the strings the store returns
    (\<^verbatim>\<open>YYYY-MM-DD\<close>); \<open>\<le>\<close> on strings is the lexicographic order, which on
    well-formed dates of that shape is the chronological order.
  \<^item> The plain object \<^verbatim>\<open>ingredients\<close> is an association list in insertion order:
    every key contains the character \<^verbatim>\<open>|\<close>, so no key is an array index and
    \<^verbatim>\<open>Object.entries\<close> enumerates the keys in the order they were first assigned.
\<close>

subsection \<open>JavaScript values\<close>

type_synonym number = real

text \<open>\<^verbatim>\<open>ToNumber\<close> as applied by the operator \<^verbatim>\<open>*\<close>: \<^verbatim>\<open>null\<close> becomes 0.\<close>

definition ToNumber :: "number option \<Rightarrow> number" where
  "ToNumber v = (case v of None \<Rightarrow> 0 | Some x \<Rightarrow> x)"

text \<open>A template-literal hole \<^verbatim>\<open>${v}\<close> for a string or \<^verbatim>\<open>null\<close>.\<close>

definition template :: "string option \<Rightarrow> string" where
  "template v = (case v of None \<Rightarrow> ''null'' | Some s \<Rightarrow> s)"

text \<open>
  \<^verbatim>\<open>String.prototype.split\<close> with a one-character separator: the segments between
  the occurrences of the separator; never the empty array.
\<close>

fun split :: "char \<Rightarrow> string \<Rightarrow> string list" where
  "split sep [] = [[]]"
| "split sep (c # cs) =
     (if c = sep then [] # split sep cs
      else (case split sep cs of [] \<Rightarrow> [[c]] | seg # segs \<Rightarrow> (c # seg) # segs))"

subsection \<open>Rows\<close>

text \<open>
  The objects the two \<^verbatim>\<open>select\<close> calls return: the columns
  \<^verbatim>\<open>ingredient_name, quantity, unit\<close> of \<^verbatim>\<open>recipe_ingredients\<close>
  (interface \<^verbatim>\<open>RecipeIngredient\<close>; name \<^verbatim>\<open>NOT NULL\<close>, the others nullable)
  and the columns \<^verbatim>\<open>recipe_id, servings\<close> of \<^verbatim>\<open>meal_plan_entries\<close>.
\<close>

record RecipeIngredient =
  ingredient_name :: string
  quantity :: "number option"
  unit :: "string option"

record MealEntry =
  recipe_id :: "string option"
  servings :: "number option"

text \<open>The stored rows of the four tables (identifier and timestamp columns that the
  function never reads are left out).\<close>

record meal_plan_entries_row =
  mpe_meal_plan_id :: string
  mpe_recipe_id :: "string option"
  mpe_meal_date :: string
  mpe_servings :: "number option"

record recipe_ingredients_row =
  ri_recipe_id :: string
  ri_ingredient_name :: string
  ri_quantity :: "number option"
  ri_unit :: "string option"

record shopping_lists_row =
  sl_id :: string
  sl_user_id :: string
  sl_meal_plan_id :: "string option"
  sl_name :: string

record shopping_list_items_row =
  product_name :: string
  item_quantity :: number
  item_unit :: "string option"
  is_purchased :: bool
  shopping_list_id :: string

text \<open>The value kept per key in \<^verbatim>\<open>ingredients\<close>, and an element of
  \<^verbatim>\<open>shoppingListItems\<close> (an item before it gets its list identifier).\<close>

record ingredient_total =
  total_quantity :: number
  total_unit :: "string option"

type_synonym ingredients = "(string \<times> ingredient_total) list"

record shoppingListItem =
  sli_product_name :: string
  sli_quantity :: number
  sli_unit :: "string option"
  sli_is_purchased :: bool

subsection \<open>The store\<close>

datatype request =
    Select_meal_plan_entries string string string
  | Select_recipe_ingredients string
  | Insert_shopping_lists shopping_lists_row
  | Insert_shopping_list_items "shopping_list_items_row list"

text \<open>
  \<open>requests\<close> is the trace of table requests issued, oldest first. \<open>fault\<close> is the
  failure behaviour of the store: the request number \<open>n\<close> (counted from 0 over the whole
  trace) fails with the given error, or succeeds. \<open>gen_random_uuid\<close> supplies the
  identifier of the \<open>n\<close>-th shopping list created.
\<close>

record store =
  auth_user :: "string option"
  meal_plan_entries :: "meal_plan_entries_row list"
  recipe_ingredients :: "recipe_ingredients_row list"
  shopping_lists :: "shopping_lists_row list"
  shopping_list_items :: "shopping_list_items_row list"
  requests :: "request list"
  fault :: "nat \<Rightarrow> string option"
  gen_random_uuid :: "nat \<Rightarrow> string"

datatype error =
    Not_authenticated
  | MealsError string
  | IngredientsError string
  | CreateListError string
  | InsertError string

definition issue :: "request \<Rightarrow> store \<Rightarrow> store" where
  "issue r s = s\<lparr>requests := requests s @ [r]\<rparr>"

text \<open>
  The store is reached through the Supabase client (\<^verbatim>\<open>@/lib/supabase/client\<close>),
  which is not part of the sources; its four operations are modelled from the store
  interface of the specification (section 6). Every operation appends its request to the
  trace and asks \<open>fault\<close> whether it fails. Row-level security is outside the model.

  The rows the entries query selects: the filters are the ones the source builds, with
  \<^verbatim>\<open>eq\<close> as equality and \<^verbatim>\<open>gte\<close>, \<^verbatim>\<open>lte\<close> as \<open>\<ge>\<close>, \<open>\<le>\<close> on the
  column; the result has the two selected columns.
\<close>

definition entries_in_range ::
  "string \<Rightarrow> string \<Rightarrow> string \<Rightarrow> meal_plan_entries_row list \<Rightarrow> MealEntry list" where
  "entries_in_range mealPlanId startDate endDate table =
     map (\<lambda>r. \<lparr>recipe_id = mpe_recipe_id r, servings = mpe_servings r\<rparr>)
       (filter (\<lambda>r. mpe_meal_plan_id r = mealPlanId
                   \<and> startDate \<le> mpe_meal_date r
                   \<and> mpe_meal_date r \<le> endDate) table)"

text \<open>Modelled from the spec: \<^verbatim>\<open>queryMealPlanEntries(planId, dateRange)\<close>, the
  request of lines 16 to 21; it fails or returns the selected rows.\<close>

definition select_meal_plan_entries ::
  "string \<Rightarrow> string \<Rightarrow> string \<Rightarrow> store \<Rightarrow> (string + MealEntry list) \<times> store" where
  "select_meal_plan_entries mealPlanId startDate endDate s =
     (let s' = issue (Select_meal_plan_entries mealPlanId startDate endDate) s in
      case fault s (length (requests s)) of
        Some e \<Rightarrow> (Inl e, s')
      | None \<Rightarrow> (Inr (entries_in_range mealPlanId startDate endDate (meal_plan_entries s)), s'))"

text \<open>The rows of one recipe, with the three selected columns.\<close>

definition ingredients_of :: "string \<Rightarrow> recipe_ingredients_row list \<Rightarrow> RecipeIngredient list" where
  "ingredients_of recipeId table =
     map (\<lambda>r. \<lparr>ingredient_name = ri_ingredient_name r,
                 quantity = ri_quantity r, unit = ri_unit r\<rparr>)
       (filter (\<lambda>r. ri_recipe_id r = recipeId) table)"

text \<open>Modelled from the spec: \<^verbatim>\<open>queryRecipeIngredients(recipeId)\<close>, the request of
  lines 30 to 33.\<close>

definition select_recipe_ingredients ::
  "string \<Rightarrow> store \<Rightarrow> (string + RecipeIngredient list) \<times> store" where
  "select_recipe_ingredients recipeId s =
     (let s' = issue (Select_recipe_ingredients recipeId) s in
      case fault s (length (requests s)) of
        Some e \<Rightarrow> (Inl e, s')
      | None \<Rightarrow> (Inr (ingredients_of recipeId (recipe_ingredients s)), s'))"

text \<open>Modelled from the spec: \<^verbatim>\<open>insertShoppingList(ownerId, mealPlanId, name)\<close>, the
  request of lines 61 to 69; on success the new row is stored and its identifier
  returned.\<close>

definition insert_shopping_list ::
  "string \<Rightarrow> string \<Rightarrow> string \<Rightarrow> store \<Rightarrow> (string + string) \<times> store" where
  "insert_shopping_list userId mealPlanId listName s =
     (let row = \<lparr>sl_id = gen_random_uuid s (length (shopping_lists s)),
                 sl_user_id = userId, sl_meal_plan_id = Some mealPlanId,
                 sl_name = listName\<rparr>;
          s' = issue (Insert_shopping_lists row) s in
      case fault s (length (requests s)) of
        Some e \<Rightarrow> (Inl e, s')
      | None \<Rightarrow> (Inr (sl_id row), s'\<lparr>shopping_lists := shopping_lists s @ [row]\<rparr>))"

text \<open>Modelled from the spec: \<^verbatim>\<open>insertShoppingListItems(listId, items)\<close>, the request
  of line 78. The bulk insert is one statement: it stores all the rows or, failing, none
  (the specification also allows a part of them; no property below depends on it).\<close>

definition insert_shopping_list_items ::
  "shopping_list_items_row list \<Rightarrow> store \<Rightarrow> string option \<times> store" where
  "insert_shopping_list_items rows s =
     (let s' = issue (Insert_shopping_list_items rows) s in
      case fault s (length (requests s)) of
        Some e \<Rightarrow> (Some e, s')
      | None \<Rightarrow> (None, s'\<lparr>shopping_list_items := shopping_list_items s @ rows\<rparr>))"

subsection \<open>The aggregation loops (lines 25 to 49)\<close>

definition key_of :: "RecipeIngredient \<Rightarrow> string" where
  "key_of ingredient = ingredient_name ingredient @ ''|'' @ template (unit ingredient)"

text \<open>
  The body of the inner loop, for one ingredient of one entry. The test
  \<^verbatim>\<open>!ingredients[key]\<close> asks whether the key is absent: the stored values are
  objects, which are truthy, and no inherited property name contains \<^verbatim>\<open>|\<close>.
\<close>

definition add_ingredient :: "MealEntry \<Rightarrow> ingredients \<Rightarrow> RecipeIngredient \<Rightarrow> ingredients" where
  "add_ingredient entry ingredients ingredient =
     (let key = key_of ingredient;
          ingredients1 =
            (if map_of ingredients key = None
             then AList.update key \<lparr>total_quantity = 0, total_unit = unit ingredient\<rparr> ingredients
             else ingredients)
      in AList.map_entry key
           (\<lambda>v. v\<lparr>total_quantity :=
                    total_quantity v + ToNumber (quantity ingredient) * ToNumber (servings entry)\<rparr>)
           ingredients1)"

text \<open>
  The outer loop. \<^verbatim>\<open>!entry.recipe_id\<close> holds for \<^verbatim>\<open>null\<close> and for the empty
  string; a failed ingredient query leaves the loop by \<^verbatim>\<open>throw\<close>.
\<close>

fun entries_loop :: "MealEntry list \<Rightarrow> ingredients \<Rightarrow> store \<Rightarrow> (error + ingredients) \<times> store" where
  "entries_loop [] ingredients s = (Inr ingredients, s)"
| "entries_loop (entry # rest) ingredients s =
     (case recipe_id entry of
        None \<Rightarrow> entries_loop rest ingredients s
      | Some rid \<Rightarrow>
          if rid = [] then entries_loop rest ingredients s
          else (case select_recipe_ingredients rid s of
                  (Inl ingredientsError, s') \<Rightarrow> (Inl (IngredientsError ingredientsError), s')
                | (Inr recipeIngredients, s') \<Rightarrow>
                    entries_loop rest (foldl (add_ingredient entry) ingredients recipeIngredients) s'))"

subsection \<open>Building the items (lines 51 to 59) and the whole function\<close>

text \<open>
  One element of \<^verbatim>\<open>shoppingListItems\<close>: the name is the first segment of the
  split key, the unit is the stored one (the second segment is bound and never used).
  \<^verbatim>\<open>split\<close> returns at least one segment, so the second case below is never taken.
\<close>

definition to_item :: "string \<times> ingredient_total \<Rightarrow> shoppingListItem" where
  "to_item kv =
     (case kv of (key, val) \<Rightarrow>
        (case split (CHR ''|'') key of
           name # _ \<Rightarrow>
             \<lparr>sli_product_name = name, sli_quantity = total_quantity val,
              sli_unit = total_unit val, sli_is_purchased = False\<rparr>
         | [] \<Rightarrow>
             \<lparr>sli_product_name = [], sli_quantity = total_quantity val,
              sli_unit = total_unit val, sli_is_purchased = False\<rparr>))"

definition with_list_id :: "string \<Rightarrow> shoppingListItem \<Rightarrow> shopping_list_items_row" where
  "with_list_id newListId item =
     \<lparr>product_name = sli_product_name item, item_quantity = sli_quantity item,
      item_unit = sli_unit item, is_purchased = sli_is_purchased item,
      shopping_list_id = newListId\<rparr>"

record generated =
  success :: bool
  listId :: string
  itemCount :: nat

definition generateShoppingList ::
  "string \<Rightarrow> string \<Rightarrow> string \<Rightarrow> store \<Rightarrow> (error + generated) \<times> store" where
  "generateShoppingList mealPlanId startDate endDate s =
     (case auth_user s of
        None \<Rightarrow> (Inl Not_authenticated, s)
      | Some userId \<Rightarrow>
          (case select_meal_plan_entries mealPlanId startDate endDate s of
             (Inl mealsError, s1) \<Rightarrow> (Inl (MealsError mealsError), s1)
           | (Inr mealEntries, s1) \<Rightarrow>
               (case entries_loop mealEntries [] s1 of
                  (Inl e, s2) \<Rightarrow> (Inl e, s2)
                | (Inr ingredients, s2) \<Rightarrow>
                    (let shoppingListItems = map to_item ingredients in
                     case insert_shopping_list userId mealPlanId
                            (''Shopping List for '' @ startDate @ '' to '' @ endDate) s2 of
                       (Inl createListError, s3) \<Rightarrow> (Inl (CreateListError createListError), s3)
                     | (Inr newListId, s3) \<Rightarrow>
                         (case insert_shopping_list_items
                                 (map (with_list_id newListId) shoppingListItems) s3 of
                            (Some insertError, s4) \<Rightarrow> (Inl (InsertError insertError), s4)
                          | (None, s4) \<Rightarrow>
                              (Inr \<lparr>success = True, listId = newListId,
                                    itemCount = length shoppingListItems\<rparr>, s4))))))"

section \<open>Vocabulary of the properties\<close>

text \<open>
  The pairs (entry, ingredient) the two loops visit when every ingredient query succeeds,
  in the order they are visited, and what one pair adds to its total.
\<close>

definition contributions ::
  "recipe_ingredients_row list \<Rightarrow> MealEntry list \<Rightarrow> (MealEntry \<times> RecipeIngredient) list" where
  "contributions table es =
     concat (map (\<lambda>e. case recipe_id e of
                          None \<Rightarrow> []
                        | Some rid \<Rightarrow> if rid = [] then [] else map (Pair e) (ingredients_of rid table))
                 es)"

definition amount :: "MealEntry \<times> RecipeIngredient \<Rightarrow> number" where
  "amount c = ToNumber (quantity (snd c)) * ToNumber (servings (fst c))"

definition aggregate :: "(MealEntry \<times> RecipeIngredient) list \<Rightarrow> ingredients \<Rightarrow> ingredients" where
  "aggregate cs ingredients = foldl (\<lambda>acc c. add_ingredient (fst c) acc (snd c)) ingredients cs"

text \<open>The sum of the amounts of the pairs stored under one key.\<close>

definition total_for :: "string \<Rightarrow> (MealEntry \<times> RecipeIngredient) list \<Rightarrow> number" where
  "total_for k cs = sum_list (map amount (filter (\<lambda>c. key_of (snd c) = k) cs))"

text \<open>The recipe identifiers the outer loop queries, one per entry with a recipe.\<close>

definition queried :: "MealEntry list \<Rightarrow> string list" where
  "queried es = concat (map (\<lambda>e. case recipe_id e of
                                    None \<Rightarrow> []
                                  | Some rid \<Rightarrow> if rid = [] then [] else [rid]) es)"

definition is_read :: "request \<Rightarrow> bool" where
  "is_read q = (case q of
                  Select_meal_plan_entries _ _ _ \<Rightarrow> True
                | Select_recipe_ingredients _ \<Rightarrow> True
                | _ \<Rightarrow> False)"

text \<open>The row that \<^verbatim>\<open>insert\<close> into \<^verbatim>\<open>shopping_lists\<close> sends.\<close>

definition new_list_row :: "string \<Rightarrow> string \<Rightarrow> string \<Rightarrow> store \<Rightarrow> shopping_lists_row" where
  "new_list_row userId mealPlanId listName s =
     \<lparr>sl_id = gen_random_uuid s (length (shopping_lists s)), sl_user_id = userId,
      sl_meal_plan_id = Some mealPlanId, sl_name = listName\<rparr>"

text \<open>The rows and requests a run adds, given the store before and after it.\<close>

definition new_items :: "store \<Rightarrow> store \<Rightarrow> shopping_list_items_row list" where
  "new_items s s' = drop (length (shopping_list_items s)) (shopping_list_items s')"

definition new_requests :: "store \<Rightarrow> store \<Rightarrow> request list" where
  "new_requests s s' = drop (length (requests s)) (requests s')"

text \<open>An item without the identifier of its list.\<close>

definition item_content :: "shopping_list_items_row \<Rightarrow> string \<times> number \<times> string option \<times> bool" where
  "item_content r = (product_name r, item_quantity r, item_unit r, is_purchased r)"

subsection \<open>Example stores\<close>

definition mk_store ::
  "string option \<Rightarrow> meal_plan_entries_row list \<Rightarrow> recipe_ingredients_row list \<Rightarrow> store" where
  "mk_store user entries rows =
     \<lparr>auth_user = user, meal_plan_entries = entries, recipe_ingredients = rows,
      shopping_lists = [], shopping_list_items = [], requests = [],
      fault = (\<lambda>_. None), gen_random_uuid = (\<lambda>n. ''list-'' @ replicate n (CHR ''i''))\<rparr>"

text \<open>The end-to-end scenario of the specification (section 8).\<close>

definition scenario :: store where
  "scenario = mk_store (Some ''u1'')
     [\<lparr>mpe_meal_plan_id = ''P'', mpe_recipe_id = Some ''A'',
       mpe_meal_date = ''2024-01-02'', mpe_servings = Some 2\<rparr>,
      \<lparr>mpe_meal_plan_id = ''P'', mpe_recipe_id = Some ''B'',
       mpe_meal_date = ''2024-01-05'', mpe_servings = Some 1\<rparr>]
     [\<lparr>ri_recipe_id = ''A'', ri_ingredient_name = ''Rice'', ri_quantity = Some 100, ri_unit = Some ''g''\<rparr>,
      \<lparr>ri_recipe_id = ''A'', ri_ingredient_name = ''Egg'', ri_quantity = Some 2, ri_unit = Some ''pcs''\<rparr>,
      \<lparr>ri_recipe_id = ''B'', ri_ingredient_name = ''Rice'', ri_quantity = Some 50, ri_unit = Some ''g''\<rparr>,
      \<lparr>ri_recipe_id = ''B'', ri_ingredient_name = ''Onion'', ri_quantity = Some 1, ri_unit = Some ''pcs''\<rparr>]"

text \<open>The store the scenario ends in, and the row and items the run adds.\<close>

definition scenario_row :: shopping_lists_row where
  "scenario_row = \<lparr>sl_id = ''list-'', sl_user_id = ''u1'', sl_meal_plan_id = Some ''P'',
      sl_name = ''Shopping List for 2024-01-01 to 2024-01-07''\<rparr>"

definition scenario_items :: "string \<Rightarrow> shopping_list_items_row list" where
  "scenario_items newListId =
     [\<lparr>product_name = ''Rice'', item_quantity = 250, item_unit = Some ''g'',
       is_purchased = False, shopping_list_id = newListId\<rparr>,
      \<lparr>product_name = ''Egg'', item_quantity = 4, item_unit = Some ''pcs'',
       is_purchased = False, shopping_list_id = newListId\<rparr>,
      \<lparr>product_name = ''Onion'', item_quantity = 1, item_unit = Some ''pcs'',
       is_purchased = False, shopping_list_id = newListId\<rparr>]"

definition scenario_after :: store where
  "scenario_after = scenario
     \<lparr>shopping_lists := [scenario_row],
      shopping_list_items := scenario_items ''list-'',
      requests := [Select_meal_plan_entries ''P'' ''2024-01-01'' ''2024-01-07'',
                   Select_recipe_ingredients ''A'', Select_recipe_ingredients ''B'',
                   Insert_shopping_lists scenario_row,
                   Insert_shopping_list_items (scenario_items ''list-'')]\<rparr>"

text \<open>
  A row of the plan dated after the range; a plan whose only entry has no recipe; the
  scenario with a store that fails its second request; stores with one entry and one
  recipe, used for ingredient names and units that contain the separator.
\<close>

definition late_row :: meal_plan_entries_row where
  "late_row = \<lparr>mpe_meal_plan_id = ''P'', mpe_recipe_id = Some ''B'',
                mpe_meal_date = ''2024-01-09'', mpe_servings = Some 1\<rparr>"

definition no_recipe_store :: store where
  "no_recipe_store = mk_store (Some ''u1'')
     [\<lparr>mpe_meal_plan_id = ''P'', mpe_recipe_id = None,
       mpe_meal_date = ''2024-01-03'', mpe_servings = Some 2\<rparr>]
     [\<lparr>ri_recipe_id = ''A'', ri_ingredient_name = ''Rice'', ri_quantity = Some 100, ri_unit = Some ''g''\<rparr>]"

definition failing_store :: store where
  "failing_store = scenario\<lparr>fault := (\<lambda>n. if n = 1 then Some ''timeout'' else None)\<rparr>"

definition one_recipe_store :: "number option \<Rightarrow> recipe_ingredients_row list \<Rightarrow> store" where
  "one_recipe_store sv rows = mk_store (Some ''u1'')
     [\<lparr>mpe_meal_plan_id = ''P'', mpe_recipe_id = Some ''R'',
       mpe_meal_date = ''2024-01-02'', mpe_servings = sv\<rparr>] rows"

definition collision_store :: store where
  "collision_store = one_recipe_store (Some 1)
     [\<lparr>ri_recipe_id = ''R'', ri_ingredient_name = ''Salt|sea'', ri_quantity = Some 1, ri_unit = Some ''g''\<rparr>,
      \<lparr>ri_recipe_id = ''R'', ri_ingredient_name = ''Salt'', ri_quantity = Some 1, ri_unit = Some ''sea|g''\<rparr>]"

definition scaled_collision_store :: store where
  "scaled_collision_store = one_recipe_store (Some 3)
     [\<lparr>ri_recipe_id = ''R'', ri_ingredient_name = ''Salt|sea'', ri_quantity = Some 2, ri_unit = Some ''g''\<rparr>,
      \<lparr>ri_recipe_id = ''R'', ri_ingredient_name = ''Salt'', ri_quantity = Some 5, ri_unit = Some ''sea|g''\<rparr>]"

definition duplicate_store :: store where
  "duplicate_store = one_recipe_store (Some 1)
     [\<lparr>ri_recipe_id = ''R'', ri_ingredient_name = ''Milk|whole'', ri_quantity = Some 1, ri_unit = Some ''l''\<rparr>,
      \<lparr>ri_recipe_id = ''R'', ri_ingredient_name = ''Milk|skim'', ri_quantity = Some 2, ri_unit = Some ''l''\<rparr>]"

definition pipe_store :: store where
  "pipe_store = one_recipe_store (Some 1)
     [\<lparr>ri_recipe_id = ''R'', ri_ingredient_name = ''Oil|olive'', ri_quantity = Some 3, ri_unit = Some ''ml''\<rparr>,
      \<lparr>ri_recipe_id = ''R'', ri_ingredient_name = ''Oil'', ri_quantity = Some 4, ri_unit = None\<rparr>]"

definition failing_after :: store where
  "failing_after = failing_store
     \<lparr>requests := [Select_meal_plan_entries ''P'' ''2024-01-01'' ''2024-01-07'',
                   Select_recipe_ingredients ''A'']\<rparr>"

text \<open>Evaluation of a run on a concrete store unfolds these definitions.\<close>

lemmas run_defs =
  mk_store_def generateShoppingList_def select_meal_plan_entries_def entries_in_range_def
  select_recipe_ingredients_def ingredients_of_def insert_shopping_list_def
  insert_shopping_list_items_def issue_def add_ingredient_def key_of_def template_def
  ToNumber_def to_item_def with_list_id_def Let_def

lemmas example_defs = scenario_def scenario_after_def scenario_row_def scenario_items_def
  late_row_def no_recipe_store_def failing_store_def failing_after_def one_recipe_store_def collision_store_def
  scaled_collision_store_def duplicate_store_def pipe_store_def

section \<open>Lemmas\<close>

subsection \<open>Store requests\<close>


lemma select_recipe_ingredients_ok:
  "fault s (length (requests s)) = None \<Longrightarrow>
   select_recipe_ingredients rid s =
     (Inr (ingredients_of rid (recipe_ingredients s)), issue (Select_recipe_ingredients rid) s)"
  by (simp add: select_recipe_ingredients_def)

lemma select_recipe_ingredients_fail:
  "fault s (length (requests s)) = Some e \<Longrightarrow>
   select_recipe_ingredients rid s = (Inl e, issue (Select_recipe_ingredients rid) s)"
  by (simp add: select_recipe_ingredients_def)

lemma issue_fields [simp]:
  "auth_user (issue q s) = auth_user s"
  "meal_plan_entries (issue q s) = meal_plan_entries s"
  "recipe_ingredients (issue q s) = recipe_ingredients s"
  "shopping_lists (issue q s) = shopping_lists s"
  "shopping_list_items (issue q s) = shopping_list_items s"
  "requests (issue q s) = requests s @ [q]"
  "fault (issue q s) = fault s"
  "gen_random_uuid (issue q s) = gen_random_uuid s"
  by (simp_all add: issue_def)

lemma aggregate_Nil [simp]: "aggregate [] ing = ing"
  by (simp add: aggregate_def)

lemma aggregate_append: "aggregate (cs @ ds) ing = aggregate ds (aggregate cs ing)"
  by (simp add: aggregate_def)

lemma aggregate_map_Pair:
  "aggregate (map (Pair e) is) ing = foldl (add_ingredient e) ing is"
  by (induction "is" arbitrary: ing) (simp_all add: aggregate_def)

text \<open>The state after the loop: only the trace grows, by ingredient queries.\<close>

lemma entries_loop_frame:
  "entries_loop es ing s = (r, s') \<Longrightarrow>
     auth_user s' = auth_user s \<and> meal_plan_entries s' = meal_plan_entries s
     \<and> recipe_ingredients s' = recipe_ingredients s \<and> shopping_lists s' = shopping_lists s
     \<and> shopping_list_items s' = shopping_list_items s \<and> fault s' = fault s
     \<and> gen_random_uuid s' = gen_random_uuid s"
proof (induction es ing s rule: entries_loop.induct)
  case (1 ing s)
  then show ?case by simp
next
  case (2 entry rest ing s)
  show ?case
  proof (cases "recipe_id entry")
    case None
    with 2 show ?thesis by simp
  next
    case (Some rid)
    show ?thesis
    proof (cases "rid = []")
      case True
      with 2 Some show ?thesis by simp
    next
      case False
      show ?thesis
      proof (cases "fault s (length (requests s))")
        case None
        with 2 Some False show ?thesis
          by (simp add: select_recipe_ingredients_ok)
      next
        case (Some e)
        with 2 \<open>recipe_id entry = Some rid\<close> False show ?thesis
          by (auto simp add: select_recipe_ingredients_fail)
      qed
    qed
  qed
qed


lemma queried_simps [simp]:
  "queried [] = []"
  "recipe_id e = None \<Longrightarrow> queried (e # es) = queried es"
  "recipe_id e = Some [] \<Longrightarrow> queried (e # es) = queried es"
  "recipe_id e = Some rid \<Longrightarrow> rid \<noteq> [] \<Longrightarrow> queried (e # es) = rid # queried es"
  by (simp_all add: queried_def)

lemma contributions_simps [simp]:
  "contributions t [] = []"
  "recipe_id e = None \<Longrightarrow> contributions t (e # es) = contributions t es"
  "recipe_id e = Some [] \<Longrightarrow> contributions t (e # es) = contributions t es"
  "recipe_id e = Some rid \<Longrightarrow> rid \<noteq> [] \<Longrightarrow>
     contributions t (e # es) = map (Pair e) (ingredients_of rid t) @ contributions t es"
  by (simp_all add: contributions_def)

lemma entries_loop_cases:
  "entries_loop es ing s = (r, s') \<Longrightarrow>
     (r = Inr (aggregate (contributions (recipe_ingredients s) es) ing)
      \<and> (\<forall>i < length (queried es). fault s (length (requests s) + i) = None)
      \<and> requests s' = requests s @ map Select_recipe_ingredients (queried es))
   \<or> (\<exists>e k. k < length (queried es)
         \<and> (\<forall>i < k. fault s (length (requests s) + i) = None)
         \<and> fault s (length (requests s) + k) = Some e
         \<and> r = Inl (IngredientsError e)
         \<and> requests s' = requests s @ map Select_recipe_ingredients (take (Suc k) (queried es)))"
proof (induction es ing s rule: entries_loop.induct)
  case (1 ing s)
  then show ?case by auto
next
  case (2 entry rest ing s)
  show ?case
  proof (cases "recipe_id entry")
    case None
    with 2 show ?thesis by simp
  next
    case (Some rid)
    note rid = this
    show ?thesis
    proof (cases "rid = []")
      case True
      with 2 rid show ?thesis by simp
    next
      case False
      let ?n = "length (requests s)"
      let ?q = "Select_recipe_ingredients rid"
      show ?thesis
      proof (cases "fault s ?n")
        case (Some e)
        with 2(4) rid False have "r = Inl (IngredientsError e)" "s' = issue ?q s"
          by (auto simp add: select_recipe_ingredients_fail)
        with Some rid False have
          "0 < length (queried (entry # rest)) \<and> (\<forall>i < (0::nat). fault s (?n + i) = None)
           \<and> fault s (?n + 0) = Some e \<and> r = Inl (IngredientsError e)
           \<and> requests s' = requests s @ map Select_recipe_ingredients (take (Suc 0) (queried (entry # rest)))"
          by simp
        then show ?thesis by blast
      next
        case None
        let ?s1 = "issue ?q s"
        let ?ing1 = "foldl (add_ingredient entry) ing (ingredients_of rid (recipe_ingredients s))"
        from 2(4) rid False None have run: "entries_loop rest ?ing1 ?s1 = (r, s')"
          by (simp add: select_recipe_ingredients_ok)
        have sel: "select_recipe_ingredients rid s = (Inr (ingredients_of rid (recipe_ingredients s)), ?s1)"
          using None by (rule select_recipe_ingredients_ok)
        from "2.IH"(3) [OF rid False sel [symmetric] refl run]
        consider
          (ok) "r = Inr (aggregate (contributions (recipe_ingredients ?s1) rest) ?ing1)"
            "\<forall>i < length (queried rest). fault ?s1 (length (requests ?s1) + i) = None"
            "requests s' = requests ?s1 @ map Select_recipe_ingredients (queried rest)"
        | (fail) e k where "k < length (queried rest)"
            "\<forall>i < k. fault ?s1 (length (requests ?s1) + i) = None"
            "fault ?s1 (length (requests ?s1) + k) = Some e"
            "r = Inl (IngredientsError e)"
            "requests s' = requests ?s1 @ map Select_recipe_ingredients (take (Suc k) (queried rest))"
          by blast
        then show ?thesis
        proof cases
          case ok
          have "\<forall>i < length (queried (entry # rest)). fault s (?n + i) = None"
          proof (intro allI impI)
            fix i assume "i < length (queried (entry # rest))"
            then show "fault s (?n + i) = None"
              using ok(2) None rid False by (cases i) auto
          qed
          moreover have "r = Inr (aggregate (contributions (recipe_ingredients s) (entry # rest)) ing)"
            using ok(1) rid False by (simp add: aggregate_append aggregate_map_Pair)
          moreover have "requests s' = requests s @ map Select_recipe_ingredients (queried (entry # rest))"
            using ok(3) rid False by simp
          ultimately show ?thesis by blast
        next
          case fail
          have "\<forall>i < Suc k. fault s (?n + i) = None"
          proof (intro allI impI)
            fix i assume "i < Suc k"
            then show "fault s (?n + i) = None"
              using fail(2) None by (cases i) auto
          qed
          moreover have "Suc k < length (queried (entry # rest))"
            using fail(1) rid False by simp
          moreover have "fault s (?n + Suc k) = Some e"
            using fail(3) by simp
          moreover have "requests s' = requests s @ map Select_recipe_ingredients (take (Suc (Suc k)) (queried (entry # rest)))"
            using fail(5) rid False by simp
          ultimately show ?thesis using fail(4) by blast
        qed
      qed
    qed
  qed
qed


subsection \<open>One step of the inner loop\<close>

lemma map_fst_map_entry: "map fst (AList.map_entry k f xs) = map fst xs"
  by (induction xs) auto

lemma add_ingredient_keys:
  "map fst (add_ingredient e ing i) =
     (if key_of i \<in> set (map fst ing) then map fst ing else map fst ing @ [key_of i])"
  by (auto simp add: add_ingredient_def Let_def map_fst_map_entry update_keys map_of_eq_None_iff)

lemma add_ingredient_distinct:
  "distinct (map fst ing) \<Longrightarrow> distinct (map fst (add_ingredient e ing i))"
  by (simp add: add_ingredient_keys)

lemma add_ingredient_lookup:
  "map_of (add_ingredient e ing i) k =
     (if k = key_of i
      then Some (case map_of ing k of
                   None \<Rightarrow> \<lparr>total_quantity = amount (e, i), total_unit = unit i\<rparr>
                 | Some v \<Rightarrow> v\<lparr>total_quantity := total_quantity v + amount (e, i)\<rparr>)
      else map_of ing k)"
  by (auto simp add: add_ingredient_def Let_def map_of_map_entry update_conv' amount_def)

subsection \<open>The fold over all contributions\<close>

lemma aggregate_Cons: "aggregate (c # cs) ing = aggregate cs (add_ingredient (fst c) ing (snd c))"
  by (simp add: aggregate_def)

lemma aggregate_distinct:
  "distinct (map fst ing) \<Longrightarrow> distinct (map fst (aggregate cs ing))"
  by (induction cs arbitrary: ing) (simp_all add: aggregate_Cons add_ingredient_distinct)

lemma add_ingredient_key_set:
  "fst ` set (add_ingredient e ing i) = insert (key_of i) (fst ` set ing)"
proof -
  have "set (map fst (add_ingredient e ing i)) = insert (key_of i) (set (map fst ing))"
    by (auto simp add: add_ingredient_keys)
  then show ?thesis by simp
qed

lemma aggregate_keys:
  "fst ` set (aggregate cs ing) = fst ` set ing \<union> (\<lambda>c. key_of (snd c)) ` set cs"
  by (induction cs arbitrary: ing) (simp_all add: aggregate_Cons add_ingredient_key_set)

lemma aggregate_lookup:
  "map_of (aggregate cs ing) k =
     (case map_of ing k of
        Some v \<Rightarrow> Some (v\<lparr>total_quantity := total_quantity v + total_for k cs\<rparr>)
      | None \<Rightarrow>
          (case find (\<lambda>c. key_of (snd c) = k) cs of
             None \<Rightarrow> None
           | Some c \<Rightarrow> Some \<lparr>total_quantity = total_for k cs, total_unit = unit (snd c)\<rparr>))"
proof (induction cs arbitrary: ing)
  case Nil
  show ?case by (simp add: total_for_def split: option.splits)
next
  case (Cons c cs)
  show ?case
    by (simp add: aggregate_Cons Cons.IH add_ingredient_lookup total_for_def
        split: option.splits)
qed

subsection \<open>Splitting the key\<close>

lemma split_not_Nil: "split sep cs \<noteq> []"
  by (induction cs) (auto split: list.splits)

lemma split_first: "\<exists>segs. split sep cs = takeWhile (\<lambda>c. c \<noteq> sep) cs # segs"
  by (induction cs) (auto split: list.splits)

lemma to_item_simps:
  "sli_product_name (to_item (k, v)) = takeWhile (\<lambda>c. c \<noteq> CHR ''|'') k"
  "sli_quantity (to_item (k, v)) = total_quantity v"
  "sli_unit (to_item (k, v)) = total_unit v"
  "sli_is_purchased (to_item (k, v)) = False"
  using split_first [of "CHR ''|''" k] by (auto simp add: to_item_def)

lemma takeWhile_before_sep:
  "\<not> P y \<Longrightarrow> takeWhile P (xs @ y # ys) = takeWhile P xs"
  by (induction xs) auto

lemma key_first_segment:
  "takeWhile (\<lambda>c. c \<noteq> CHR ''|'') (key_of i) = takeWhile (\<lambda>c. c \<noteq> CHR ''|'') (ingredient_name i)"
  by (simp add: key_of_def takeWhile_before_sep)


subsection \<open>A successful run, step by step\<close>

lemma select_meal_plan_entries_ok:
  "fault s (length (requests s)) = None \<Longrightarrow>
   select_meal_plan_entries m a b s =
     (Inr (entries_in_range m a b (meal_plan_entries s)), issue (Select_meal_plan_entries m a b) s)"
  by (simp add: select_meal_plan_entries_def)

lemma select_meal_plan_entries_fail:
  "fault s (length (requests s)) = Some e \<Longrightarrow>
   select_meal_plan_entries m a b s = (Inl e, issue (Select_meal_plan_entries m a b) s)"
  by (simp add: select_meal_plan_entries_def)

lemma insert_shopping_list_ok:
  "fault s (length (requests s)) = None \<Longrightarrow>
   insert_shopping_list u m n s =
     (Inr (sl_id (new_list_row u m n s)),
      (issue (Insert_shopping_lists (new_list_row u m n s)) s)
        \<lparr>shopping_lists := shopping_lists s @ [new_list_row u m n s]\<rparr>)"
  by (simp add: insert_shopping_list_def new_list_row_def Let_def)

lemma insert_shopping_list_fail:
  "fault s (length (requests s)) = Some e \<Longrightarrow>
   insert_shopping_list u m n s = (Inl e, issue (Insert_shopping_lists (new_list_row u m n s)) s)"
  by (simp add: insert_shopping_list_def new_list_row_def Let_def)

lemma insert_shopping_list_items_ok:
  "fault s (length (requests s)) = None \<Longrightarrow>
   insert_shopping_list_items rows s =
     (None, (issue (Insert_shopping_list_items rows) s)
              \<lparr>shopping_list_items := shopping_list_items s @ rows\<rparr>)"
  by (simp add: insert_shopping_list_items_def Let_def)

lemma insert_shopping_list_items_fail:
  "fault s (length (requests s)) = Some e \<Longrightarrow>
   insert_shopping_list_items rows s = (Some e, issue (Insert_shopping_list_items rows) s)"
  by (simp add: insert_shopping_list_items_def Let_def)

lemma generateShoppingList_success:
  assumes run: "generateShoppingList m a b s = (Inr r, s')"
  shows "\<exists>u row items.
     auth_user s = Some u
     \<and> items = map to_item (aggregate (contributions (recipe_ingredients s)
                                (entries_in_range m a b (meal_plan_entries s))) [])
     \<and> row = new_list_row u m (''Shopping List for '' @ a @ '' to '' @ b) s
     \<and> r = \<lparr>success = True, listId = sl_id row, itemCount = length items\<rparr>
     \<and> shopping_lists s' = shopping_lists s @ [row]
     \<and> shopping_list_items s' = shopping_list_items s @ map (with_list_id (sl_id row)) items
     \<and> requests s' = requests s @ Select_meal_plan_entries m a b
          # map Select_recipe_ingredients (queried (entries_in_range m a b (meal_plan_entries s)))
          @ [Insert_shopping_lists row, Insert_shopping_list_items (map (with_list_id (sl_id row)) items)]
     \<and> meal_plan_entries s' = meal_plan_entries s
     \<and> recipe_ingredients s' = recipe_ingredients s
     \<and> auth_user s' = auth_user s \<and> fault s' = fault s
     \<and> gen_random_uuid s' = gen_random_uuid s"
proof -
  let ?es = "entries_in_range m a b (meal_plan_entries s)"
  let ?s1 = "issue (Select_meal_plan_entries m a b) s"
  let ?name = "''Shopping List for '' @ a @ '' to '' @ b"
  from run obtain u where u: "auth_user s = Some u"
    by (auto simp add: generateShoppingList_def split: option.splits)
  have f0: "fault s (length (requests s)) = None"
  proof (cases "fault s (length (requests s))")
    case (Some e)
    with run u show ?thesis
      by (simp add: generateShoppingList_def select_meal_plan_entries_fail)
  qed simp
  note sel = select_meal_plan_entries_ok [OF f0, of m a b]
  obtain r2 s2 where loop: "entries_loop ?es [] ?s1 = (r2, s2)"
    by (cases "entries_loop ?es [] ?s1")
  from run u sel loop obtain ing where ing: "r2 = Inr ing"
    by (cases r2) (auto simp add: generateShoppingList_def)
  from entries_loop_cases [OF loop] ing
  have ing_eq: "ing = aggregate (contributions (recipe_ingredients s) ?es) []"
    and req2: "requests s2 = requests s @ Select_meal_plan_entries m a b
                 # map Select_recipe_ingredients (queried ?es)"
    by auto
  note fr2 = entries_loop_frame [OF loop]
  let ?items = "map to_item ing"
  let ?row = "new_list_row u m ?name s2"
  let ?s3 = "(issue (Insert_shopping_lists ?row) s2)\<lparr>shopping_lists := shopping_lists s2 @ [?row]\<rparr>"
  have f2: "fault s2 (length (requests s2)) = None"
  proof (cases "fault s2 (length (requests s2))")
    case (Some e)
    with run u sel loop ing show ?thesis
      by (simp add: generateShoppingList_def insert_shopping_list_fail)
  qed simp
  note ins = insert_shopping_list_ok [OF f2, of u m ?name]
  let ?rows = "map (with_list_id (sl_id ?row)) ?items"
  let ?s4 = "(issue (Insert_shopping_list_items ?rows) ?s3)
                 \<lparr>shopping_list_items := shopping_list_items ?s3 @ ?rows\<rparr>"
  have f3: "fault ?s3 (length (requests ?s3)) = None"
  proof (cases "fault ?s3 (length (requests ?s3))")
    case (Some e)
    with run u sel loop ing ins show ?thesis
      by (simp add: generateShoppingList_def insert_shopping_list_items_fail Let_def)
  qed simp
  note ins2 = insert_shopping_list_items_ok [OF f3, of ?rows]
  from run u sel loop ing ins ins2
  have r: "r = \<lparr>success = True, listId = sl_id ?row, itemCount = length ?items\<rparr>"
    and s': "s' = ?s4"
    by (simp_all add: generateShoppingList_def Let_def)
  have row: "?row = new_list_row u m ?name s"
    using fr2 by (simp add: new_list_row_def)
  show ?thesis
    using u r s' fr2 req2 ing_eq row by simp
qed

lemma success_new_items:
  assumes "generateShoppingList m a b s = (Inr r, s')"
  shows "new_items s s' =
     map (with_list_id (listId r))
       (map to_item (aggregate (contributions (recipe_ingredients s)
                        (entries_in_range m a b (meal_plan_entries s))) []))"
  using generateShoppingList_success [OF assms] by (auto simp add: new_items_def)

lemma item_content_with_list_id:
  "item_content (with_list_id x (to_item (k, v))) =
     (takeWhile (\<lambda>c. c \<noteq> CHR ''|'') k, total_quantity v, total_unit v, False)"
  by (simp add: item_content_def with_list_id_def to_item_simps)

lemma aggregate_member:
  assumes "c \<in> set cs"
  shows "\<exists>c0. find (\<lambda>d. key_of (snd d) = key_of (snd c)) cs = Some c0
     \<and> (key_of (snd c), \<lparr>total_quantity = total_for (key_of (snd c)) cs,
                           total_unit = unit (snd c0)\<rparr>) \<in> set (aggregate cs [])"
proof -
  let ?k = "key_of (snd c)"
  from assms have "find (\<lambda>d. key_of (snd d) = ?k) cs \<noteq> None"
    unfolding find_None_iff by blast
  then obtain c0 where c0: "find (\<lambda>d. key_of (snd d) = ?k) cs = Some c0"
    by blast
  then have "map_of (aggregate cs []) ?k
      = Some \<lparr>total_quantity = total_for ?k cs, total_unit = unit (snd c0)\<rparr>"
    by (simp add: aggregate_lookup)
  then show ?thesis using c0 by (auto dest: map_of_SomeD)
qed

lemma aggregate_entry:
  assumes "(k, v) \<in> set (aggregate cs [])"
  shows "\<exists>first \<in> set cs. key_of (snd first) = k
     \<and> find (\<lambda>d. key_of (snd d) = k) cs = Some first
     \<and> v = \<lparr>total_quantity = total_for k cs, total_unit = unit (snd first)\<rparr>"
proof -
  have "distinct (map fst (aggregate cs []))"
    by (rule aggregate_distinct) simp
  from this assms have look: "map_of (aggregate cs []) k = Some v"
    by (rule map_of_is_SomeI)
  then obtain first where first: "find (\<lambda>d. key_of (snd d) = k) cs = Some first"
    and v: "v = \<lparr>total_quantity = total_for k cs, total_unit = unit (snd first)\<rparr>"
    by (auto simp add: aggregate_lookup split: option.splits)
  from first have "first \<in> set cs" and "key_of (snd first) = k"
    by (auto simp add: find_Some_iff)
  with first v show ?thesis by blast
qed

subsection \<open>Independence of rows outside the selection\<close>

lemma select_recipe_ingredients_entries_upd:
  "select_recipe_ingredients rid (s\<lparr>meal_plan_entries := T\<rparr>) =
     (case select_recipe_ingredients rid s of (r, s') \<Rightarrow> (r, s'\<lparr>meal_plan_entries := T\<rparr>))"
  by (simp add: select_recipe_ingredients_def issue_def Let_def split: option.splits)

lemma entries_loop_entries_upd:
  "entries_loop es ing (s\<lparr>meal_plan_entries := T\<rparr>) =
     (case entries_loop es ing s of (r, s') \<Rightarrow> (r, s'\<lparr>meal_plan_entries := T\<rparr>))"
proof (induction es ing s rule: entries_loop.induct)
  case (1 ing s)
  show ?case by simp
next
  case (2 entry rest ing s)
  show ?case
  proof (cases "recipe_id entry")
    case None
    with 2 show ?thesis by simp
  next
    case (Some rid)
    note rid = this
    show ?thesis
    proof (cases "rid = []")
      case True
      with 2 rid show ?thesis by simp
    next
      case False
      show ?thesis
      proof (cases "fault s (length (requests s))")
        case None
        note sel = select_recipe_ingredients_ok [OF None, of rid]
        from "2.IH"(3) [OF rid False sel [symmetric] refl] rid False sel
        show ?thesis
          by (simp add: select_recipe_ingredients_entries_upd)
      next
        case (Some e)
        note sel = select_recipe_ingredients_fail [OF Some, of rid]
        from rid False sel show ?thesis
          by (simp add: select_recipe_ingredients_entries_upd)
      qed
    qed
  qed
qed

lemma select_meal_plan_entries_entries_upd:
  "entries_in_range m a b T = entries_in_range m a b (meal_plan_entries s) \<Longrightarrow>
   select_meal_plan_entries m a b (s\<lparr>meal_plan_entries := T\<rparr>) =
     (case select_meal_plan_entries m a b s of (r, s') \<Rightarrow> (r, s'\<lparr>meal_plan_entries := T\<rparr>))"
  by (simp add: select_meal_plan_entries_def issue_def Let_def split: option.splits)

lemma insert_shopping_list_entries_upd:
  "insert_shopping_list u m n (s\<lparr>meal_plan_entries := T\<rparr>) =
     (case insert_shopping_list u m n s of (r, s') \<Rightarrow> (r, s'\<lparr>meal_plan_entries := T\<rparr>))"
  by (simp add: insert_shopping_list_def issue_def Let_def split: option.splits)

lemma insert_shopping_list_items_entries_upd:
  "insert_shopping_list_items rows (s\<lparr>meal_plan_entries := T\<rparr>) =
     (case insert_shopping_list_items rows s of (r, s') \<Rightarrow> (r, s'\<lparr>meal_plan_entries := T\<rparr>))"
  by (simp add: insert_shopping_list_items_def issue_def Let_def split: option.splits)

lemma generateShoppingList_entries_upd:
  assumes "entries_in_range m a b T = entries_in_range m a b (meal_plan_entries s)"
  shows "generateShoppingList m a b (s\<lparr>meal_plan_entries := T\<rparr>) =
     (case generateShoppingList m a b s of (r, s') \<Rightarrow> (r, s'\<lparr>meal_plan_entries := T\<rparr>))"
  by (simp add: generateShoppingList_def select_meal_plan_entries_entries_upd [OF assms]
      entries_loop_entries_upd insert_shopping_list_entries_upd
      insert_shopping_list_items_entries_upd Let_def
      split: prod.splits sum.splits option.splits)

lemma entries_in_range_drop:
  assumes "mpe_meal_plan_id row \<noteq> m \<or> mpe_meal_date row < a \<or> b < mpe_meal_date row"
  shows "entries_in_range m a b (xs @ row # ys) = entries_in_range m a b (xs @ ys)"
  using assms by (auto simp add: entries_in_range_def)

subsection \<open>Entries without a recipe; reads and writes\<close>

lemma entries_loop_all_null:
  "\<forall>e \<in> set es. recipe_id e = None \<Longrightarrow> entries_loop es ing s = (Inr ing, s)"
  by (induction es) simp_all

lemma is_read_simps [simp]:
  "is_read (Select_meal_plan_entries m a b)"
  "is_read (Select_recipe_ingredients rid)"
  "\<not> is_read (Insert_shopping_lists row)"
  "\<not> is_read (Insert_shopping_list_items rows)"
  by (simp_all add: is_read_def)

subsection \<open>Runs on the example stores\<close>

lemma scenario_run:
  "generateShoppingList ''P'' ''2024-01-01'' ''2024-01-07'' scenario
     = (Inr \<lparr>success = True, listId = ''list-'', itemCount = 3\<rparr>, scenario_after)"
  by (simp add: scenario_def scenario_after_def scenario_row_def scenario_items_def run_defs)

lemma run_eqI: "fst x = a \<Longrightarrow> x = (a, snd x)"
  by (cases x) simp

lemma scenario_second_run:
  "generateShoppingList ''P'' ''2024-01-01'' ''2024-01-07'' scenario_after
     = (Inr \<lparr>success = True, listId = ''list-i'', itemCount = 3\<rparr>,
        snd (generateShoppingList ''P'' ''2024-01-01'' ''2024-01-07'' scenario_after))"
  by (rule run_eqI) (simp add: example_defs run_defs)

lemma failing_run:
  "generateShoppingList ''P'' ''2024-01-01'' ''2024-01-07'' failing_store
     = (Inl (IngredientsError ''timeout''), failing_after)"
  by (simp add: example_defs run_defs)

lemma pipe_run:
  "generateShoppingList ''P'' ''2024-01-01'' ''2024-01-07'' pipe_store
     = (Inr \<lparr>success = True, listId = ''list-'', itemCount = 2\<rparr>,
        snd (generateShoppingList ''P'' ''2024-01-01'' ''2024-01-07'' pipe_store))"
  by (rule run_eqI) (simp add: example_defs run_defs)

lemma amount_scaled:
  "amount (\<lparr>recipe_id = rid, servings = Some 3\<rparr>,
           \<lparr>ingredient_name = n, quantity = Some 2, unit = u\<rparr>) = 6"
  by (simp add: amount_def ToNumber_def)

lemma amount_null_quantity:
  "amount (e, \<lparr>ingredient_name = n, quantity = None, unit = u\<rparr>) = 0"
  by (simp add: amount_def ToNumber_def)

subsection \<open>When the key determines name and unit\<close>

text \<open>
  The key determines the name and the rendered unit where no name contains the separator,
  and also where no rendered unit contains it (the recipe editor offers a fixed list of
  units without it, and free text for names). There the total of a key is the total of a
  pair of name and unit.
\<close>

lemma key_of_eq_iff:
  assumes "CHR ''|'' \<notin> set (ingredient_name i)" and "CHR ''|'' \<notin> set (ingredient_name j)"
  shows "key_of i = key_of j \<longleftrightarrow>
     ingredient_name i = ingredient_name j \<and> template (unit i) = template (unit j)"
proof
  assume eq: "key_of i = key_of j"
  have "takeWhile (\<lambda>c. c \<noteq> CHR ''|'') (key_of i) = ingredient_name i"
    using assms(1) by (auto simp add: key_first_segment)
  moreover have "takeWhile (\<lambda>c. c \<noteq> CHR ''|'') (key_of j) = ingredient_name j"
    using assms(2) by (auto simp add: key_first_segment)
  ultimately have "ingredient_name i = ingredient_name j"
    using eq by simp
  with eq show "ingredient_name i = ingredient_name j \<and> template (unit i) = template (unit j)"
    by (simp add: key_of_def)
next
  assume "ingredient_name i = ingredient_name j \<and> template (unit i) = template (unit j)"
  then show "key_of i = key_of j"
    by (simp add: key_of_def)
qed

lemma append_sep_eq:
  assumes "sep \<notin> set u" and "sep \<notin> set v" and "n @ sep # u = m @ sep # v"
  shows "n = m \<and> u = v"
proof -
  from assms(3) have "rev u @ sep # rev n = rev v @ sep # rev m"
    by (metis rev_append rev.simps(2) append_assoc append_Cons append_Nil)
  then have "takeWhile (\<lambda>c. c \<noteq> sep) (rev u @ sep # rev n)
      = takeWhile (\<lambda>c. c \<noteq> sep) (rev v @ sep # rev m)"
    by simp
  moreover have "takeWhile (\<lambda>c. c \<noteq> sep) (rev u) = rev u"
    and "takeWhile (\<lambda>c. c \<noteq> sep) (rev v) = rev v"
    using assms(1,2) by auto
  ultimately have "rev u = rev v"
    by (simp add: takeWhile_before_sep)
  then have "u = v" by simp
  with assms(3) show ?thesis by simp
qed

lemma key_of_eq_iff_unit:
  assumes "CHR ''|'' \<notin> set (template (unit i))" and "CHR ''|'' \<notin> set (template (unit j))"
  shows "key_of i = key_of j \<longleftrightarrow>
     ingredient_name i = ingredient_name j \<and> template (unit i) = template (unit j)"
  using append_sep_eq [OF assms, of "ingredient_name i" "ingredient_name j"]
  by (auto simp add: key_of_def)

lemma total_for_pair:
  assumes "\<forall>c \<in> set cs. CHR ''|'' \<notin> set (template (unit (snd c)))"
    and "CHR ''|'' \<notin> set (template (unit i))"
  shows "total_for (key_of i) cs =
     sum_list (map amount
       (filter (\<lambda>c. ingredient_name (snd c) = ingredient_name i
                   \<and> template (unit (snd c)) = template (unit i)) cs))"
proof -
  have "filter (\<lambda>c. key_of (snd c) = key_of i) cs =
      filter (\<lambda>c. ingredient_name (snd c) = ingredient_name i
                   \<and> template (unit (snd c)) = template (unit i)) cs"
    using assms by (intro filter_cong refl) (simp add: key_of_eq_iff_unit)
  then show ?thesis by (simp add: total_for_def)
qed

section \<open>Properties\<close>

text \<open>
  C1. Two ingredient tuples are to merge into one item exactly when their names are the
  same string and their units are the same string; tuples that differ in either are to
  stay apart. The key is the name, the separator \<^verbatim>\<open>|\<close> and the unit in one
  string, so the tuples (\<^verbatim>\<open>Salt|sea\<close>, \<^verbatim>\<open>g\<close>) and (\<^verbatim>\<open>Salt\<close>,
  \<^verbatim>\<open>sea|g\<close>), which differ in both name and unit, get the same key: the run on
  \<open>collision_store\<close> inserts a single item that carries the sum of both quantities.
\<close>

theorem separator_merges_distinct_pairs:
  "fst (generateShoppingList ''P'' ''2024-01-01'' ''2024-01-07'' collision_store)
     = Inr \<lparr>success = True, listId = ''list-'', itemCount = 1\<rparr>
   \<and> shopping_list_items (snd (generateShoppingList ''P'' ''2024-01-01'' ''2024-01-07'' collision_store))
     = [\<lparr>product_name = ''Salt'', item_quantity = 2, item_unit = Some ''g'',
         is_purchased = False, shopping_list_id = ''list-''\<rparr>]"
  by (simp add: example_defs run_defs)

text \<open>
  C2. The quantity of the item of a (name, unit) pair is to be the sum of quantity times
  servings over the tuples with exactly that name and unit. On
  \<open>scaled_collision_store\<close> (servings 3) the tuples with exactly the name
  \<^verbatim>\<open>Salt|sea\<close> and the unit \<^verbatim>\<open>g\<close> sum to 6, but the one item inserted
  holds 21: it also received the 15 of the tuple (\<^verbatim>\<open>Salt\<close>, \<^verbatim>\<open>sea|g\<close>),
  which shares the key.
\<close>

theorem separator_adds_foreign_amounts:
  "shopping_list_items (snd (generateShoppingList ''P'' ''2024-01-01'' ''2024-01-07'' scaled_collision_store))
     = [\<lparr>product_name = ''Salt'', item_quantity = 21, item_unit = Some ''g'',
         is_purchased = False, shopping_list_id = ''list-''\<rparr>]
   \<and> sum_list (map amount
        (filter (\<lambda>c. ingredient_name (snd c) = ''Salt|sea'' \<and> unit (snd c) = Some ''g'')
           (contributions (recipe_ingredients scaled_collision_store)
              (entries_in_range ''P'' ''2024-01-01'' ''2024-01-07''
                 (meal_plan_entries scaled_collision_store))))) = 6"
  by (simp add: example_defs run_defs contributions_def amount_def)

text \<open>
  C3. No two inserted items are to share the pair of product name and unit. On
  \<open>duplicate_store\<close> the names \<^verbatim>\<open>Milk|whole\<close> and \<^verbatim>\<open>Milk|skim\<close> have
  different keys, and both items get the product name \<^verbatim>\<open>Milk\<close> (the key up to
  its first separator) and the unit \<^verbatim>\<open>l\<close>: the run inserts two items with the
  same product name and unit.
\<close>

theorem separator_duplicates_items:
  "shopping_list_items (snd (generateShoppingList ''P'' ''2024-01-01'' ''2024-01-07'' duplicate_store))
     = [\<lparr>product_name = ''Milk'', item_quantity = 1, item_unit = Some ''l'',
         is_purchased = False, shopping_list_id = ''list-''\<rparr>,
        \<lparr>product_name = ''Milk'', item_quantity = 2, item_unit = Some ''l'',
         is_purchased = False, shopping_list_id = ''list-''\<rparr>]"
  by (simp add: example_defs run_defs)

text \<open>
  C4. The entries that contribute are exactly the rows of the given plan whose meal date
  lies between the start date and the end date, both ends included. On success the run
  queries the ingredients of exactly those rows (one query per row with a recipe, in table
  order) and the items it inserts are the aggregation over exactly those rows. A row of
  another plan, or dated strictly before the start or strictly after the end, changes
  nothing: with or without it in the table the run returns the same result and leaves the
  same store, the table apart.
\<close>

theorem date_range_selects_entries:
  "(generateShoppingList mealPlanId startDate endDate s = (Inr r, s') \<longrightarrow>
      new_requests s s' =
        Select_meal_plan_entries mealPlanId startDate endDate
        # map Select_recipe_ingredients
            (queried (map (\<lambda>row. \<lparr>recipe_id = mpe_recipe_id row, servings = mpe_servings row\<rparr>)
               (filter (\<lambda>row. mpe_meal_plan_id row = mealPlanId
                         \<and> startDate \<le> mpe_meal_date row \<and> mpe_meal_date row \<le> endDate)
                  (meal_plan_entries s))))
        @ [Insert_shopping_lists (last (shopping_lists s')),
           Insert_shopping_list_items (new_items s s')]
      \<and> new_items s s' =
        map (with_list_id (listId r))
          (map to_item
             (aggregate
                (contributions (recipe_ingredients s)
                   (map (\<lambda>row. \<lparr>recipe_id = mpe_recipe_id row, servings = mpe_servings row\<rparr>)
                      (filter (\<lambda>row. mpe_meal_plan_id row = mealPlanId
                                \<and> startDate \<le> mpe_meal_date row \<and> mpe_meal_date row \<le> endDate)
                         (meal_plan_entries s))))
                [])))
   \<and> (mpe_meal_plan_id other \<noteq> mealPlanId \<or> mpe_meal_date other < startDate
        \<or> endDate < mpe_meal_date other \<longrightarrow>
      generateShoppingList mealPlanId startDate endDate (s\<lparr>meal_plan_entries := xs @ other # ys\<rparr>) =
        (case generateShoppingList mealPlanId startDate endDate (s\<lparr>meal_plan_entries := xs @ ys\<rparr>) of
           (r0, s0) \<Rightarrow> (r0, s0\<lparr>meal_plan_entries := xs @ other # ys\<rparr>)))"
proof (intro conjI impI)
  assume run: "generateShoppingList mealPlanId startDate endDate s = (Inr r, s')"
  from generateShoppingList_success [OF run]
  show "new_requests s s' =
        Select_meal_plan_entries mealPlanId startDate endDate
        # map Select_recipe_ingredients
            (queried (map (\<lambda>row. \<lparr>recipe_id = mpe_recipe_id row, servings = mpe_servings row\<rparr>)
               (filter (\<lambda>row. mpe_meal_plan_id row = mealPlanId
                         \<and> startDate \<le> mpe_meal_date row \<and> mpe_meal_date row \<le> endDate)
                  (meal_plan_entries s))))
        @ [Insert_shopping_lists (last (shopping_lists s')),
           Insert_shopping_list_items (new_items s s')]"
    by (auto simp add: new_requests_def new_items_def entries_in_range_def)
  from success_new_items [OF run]
  show "new_items s s' =
        map (with_list_id (listId r))
          (map to_item
             (aggregate
                (contributions (recipe_ingredients s)
                   (map (\<lambda>row. \<lparr>recipe_id = mpe_recipe_id row, servings = mpe_servings row\<rparr>)
                      (filter (\<lambda>row. mpe_meal_plan_id row = mealPlanId
                                \<and> startDate \<le> mpe_meal_date row \<and> mpe_meal_date row \<le> endDate)
                         (meal_plan_entries s))))
                []))"
    by (simp add: entries_in_range_def)
next
  assume out: "mpe_meal_plan_id other \<noteq> mealPlanId \<or> mpe_meal_date other < startDate
        \<or> endDate < mpe_meal_date other"
  have "entries_in_range mealPlanId startDate endDate (xs @ other # ys)
      = entries_in_range mealPlanId startDate endDate (meal_plan_entries (s\<lparr>meal_plan_entries := xs @ ys\<rparr>))"
    using entries_in_range_drop [OF out] by simp
  from generateShoppingList_entries_upd [OF this]
  show "generateShoppingList mealPlanId startDate endDate (s\<lparr>meal_plan_entries := xs @ other # ys\<rparr>) =
        (case generateShoppingList mealPlanId startDate endDate (s\<lparr>meal_plan_entries := xs @ ys\<rparr>) of
           (r0, s0) \<Rightarrow> (r0, s0\<lparr>meal_plan_entries := xs @ other # ys\<rparr>))"
    by simp
qed

theorem date_range_selects_entries_witness:
  "generateShoppingList ''P'' ''2024-01-01'' ''2024-01-07'' scenario
     = (Inr \<lparr>success = True, listId = ''list-'', itemCount = 3\<rparr>, scenario_after)
   \<and> new_requests scenario scenario_after =
       [Select_meal_plan_entries ''P'' ''2024-01-01'' ''2024-01-07'',
        Select_recipe_ingredients ''A'', Select_recipe_ingredients ''B'',
        Insert_shopping_lists scenario_row,
        Insert_shopping_list_items (scenario_items ''list-'')]
   \<and> new_items scenario scenario_after = scenario_items ''list-''
   \<and> ''2024-01-07'' < mpe_meal_date late_row
   \<and> generateShoppingList ''P'' ''2024-01-01'' ''2024-01-07''
         (scenario\<lparr>meal_plan_entries := late_row # meal_plan_entries scenario\<rparr>)
       = (Inr \<lparr>success = True, listId = ''list-'', itemCount = 3\<rparr>,
          scenario_after\<lparr>meal_plan_entries := late_row # meal_plan_entries scenario\<rparr>)"
proof -
  have late: "''2024-01-07'' < mpe_meal_date late_row"
    by (simp add: late_row_def)
  have same: "scenario\<lparr>meal_plan_entries := [] @ meal_plan_entries scenario\<rparr> = scenario"
    by simp
  note inst = date_range_selects_entries
    [of "''P''" "''2024-01-01''" "''2024-01-07''" scenario
        "\<lparr>success = True, listId = ''list-'', itemCount = 3\<rparr>" scenario_after
        late_row "[]" "meal_plan_entries scenario"]
  from inst scenario_run have
    "new_requests scenario scenario_after =
       [Select_meal_plan_entries ''P'' ''2024-01-01'' ''2024-01-07'',
        Select_recipe_ingredients ''A'', Select_recipe_ingredients ''B'',
        Insert_shopping_lists scenario_row,
        Insert_shopping_list_items (scenario_items ''list-'')]"
    and "new_items scenario scenario_after = scenario_items ''list-''"
    by (simp_all add: new_requests_def new_items_def scenario_after_def scenario_def mk_store_def)
  moreover from inst late scenario_run have
    "generateShoppingList ''P'' ''2024-01-01'' ''2024-01-07''
         (scenario\<lparr>meal_plan_entries := late_row # meal_plan_entries scenario\<rparr>)
       = (Inr \<lparr>success = True, listId = ''list-'', itemCount = 3\<rparr>,
          scenario_after\<lparr>meal_plan_entries := late_row # meal_plan_entries scenario\<rparr>)"
    by (simp add: same)
  ultimately show ?thesis
    using late scenario_run by simp
qed

text \<open>
  C5. When every row the date range selects has a null recipe reference (in particular
  when it selects no row), the user is signed in and the three requests issued succeed,
  the run succeeds with \<^verbatim>\<open>itemCount = 0\<close>: it issues the entries query, creates the
  list and inserts the empty list of items, and no ingredient query. An entry with a null
  recipe reference is skipped by the loop: neither the totals nor the store change.
\<close>

theorem no_recipes_no_items:
  assumes "auth_user s = Some userId"
    and "\<forall>row \<in> set (meal_plan_entries s).
           mpe_meal_plan_id row = mealPlanId \<and> startDate \<le> mpe_meal_date row
           \<and> mpe_meal_date row \<le> endDate \<longrightarrow> mpe_recipe_id row = None"
    and "fault s (length (requests s)) = None"
    and "fault s (length (requests s) + 1) = None"
    and "fault s (length (requests s) + 2) = None"
  shows "(\<exists>s'. generateShoppingList mealPlanId startDate endDate s =
            (Inr \<lparr>success = True, listId = gen_random_uuid s (length (shopping_lists s)),
                  itemCount = 0\<rparr>, s')
           \<and> new_items s s' = []
           \<and> new_requests s s' =
               [Select_meal_plan_entries mealPlanId startDate endDate,
                Insert_shopping_lists
                  (new_list_row userId mealPlanId
                     (''Shopping List for '' @ startDate @ '' to '' @ endDate) s),
                Insert_shopping_list_items []])
     \<and> entries_loop (\<lparr>recipe_id = None, servings = sv\<rparr> # rest) ingredients s0
         = entries_loop rest ingredients s0"
proof -
  let ?es = "entries_in_range mealPlanId startDate endDate (meal_plan_entries s)"
  let ?s1 = "issue (Select_meal_plan_entries mealPlanId startDate endDate) s"
  let ?name = "''Shopping List for '' @ startDate @ '' to '' @ endDate"
  let ?row = "new_list_row userId mealPlanId ?name s"
  have "\<forall>e \<in> set ?es. recipe_id e = None"
    using assms(2) by (auto simp add: entries_in_range_def)
  then have loop: "entries_loop ?es [] ?s1 = (Inr [], ?s1)"
    by (rule entries_loop_all_null)
  note sel = select_meal_plan_entries_ok [OF assms(3), of mealPlanId startDate endDate]
  have f1: "fault ?s1 (length (requests ?s1)) = None"
    using assms(4) by simp
  note ins = insert_shopping_list_ok [OF f1, of userId mealPlanId ?name]
  have row: "new_list_row userId mealPlanId ?name ?s1 = ?row"
    by (simp add: new_list_row_def)
  let ?s2 = "(issue (Insert_shopping_lists ?row) ?s1)\<lparr>shopping_lists := shopping_lists ?s1 @ [?row]\<rparr>"
  have f2: "fault ?s2 (length (requests ?s2)) = None"
    using assms(5) by simp
  note ins2 = insert_shopping_list_items_ok [OF f2, of "[]"]
  let ?s3 = "(issue (Insert_shopping_list_items []) ?s2)\<lparr>shopping_list_items := shopping_list_items ?s2 @ []\<rparr>"
  have run: "generateShoppingList mealPlanId startDate endDate s =
      (Inr \<lparr>success = True, listId = gen_random_uuid s (length (shopping_lists s)),
            itemCount = 0\<rparr>, ?s3)"
    using assms(1) sel loop ins ins2 row
    by (simp add: generateShoppingList_def new_list_row_def)
  moreover have "new_items s ?s3 = []"
    by (simp add: new_items_def)
  moreover have "new_requests s ?s3 =
      [Select_meal_plan_entries mealPlanId startDate endDate, Insert_shopping_lists ?row,
       Insert_shopping_list_items []]"
    by (simp add: new_requests_def)
  ultimately show ?thesis by simp
qed

theorem no_recipes_no_items_witness:
  "auth_user no_recipe_store = Some ''u1''
   \<and> map mpe_recipe_id (meal_plan_entries no_recipe_store) = [None]
   \<and> map (fault no_recipe_store) [0, 1, 2] = [None, None, None]
   \<and> fst (generateShoppingList ''P'' ''2024-01-01'' ''2024-01-07'' no_recipe_store)
       = Inr \<lparr>success = True, listId = ''list-'', itemCount = 0\<rparr>
   \<and> shopping_list_items
         (snd (generateShoppingList ''P'' ''2024-01-01'' ''2024-01-07'' no_recipe_store)) = []"
proof -
  have u: "auth_user no_recipe_store = Some ''u1''"
    by (simp add: no_recipe_store_def mk_store_def)
  have rows: "\<forall>row \<in> set (meal_plan_entries no_recipe_store).
      mpe_meal_plan_id row = ''P'' \<and> ''2024-01-01'' \<le> mpe_meal_date row
      \<and> mpe_meal_date row \<le> ''2024-01-07'' \<longrightarrow> mpe_recipe_id row = None"
    by (simp add: no_recipe_store_def mk_store_def)
  have f0: "fault no_recipe_store (length (requests no_recipe_store)) = None"
    and f1: "fault no_recipe_store (length (requests no_recipe_store) + 1) = None"
    and f2: "fault no_recipe_store (length (requests no_recipe_store) + 2) = None"
    by (simp_all add: no_recipe_store_def mk_store_def)
  from no_recipes_no_items [OF u rows f0 f1 f2]
  obtain s' where
    "generateShoppingList ''P'' ''2024-01-01'' ''2024-01-07'' no_recipe_store =
       (Inr \<lparr>success = True,
             listId = gen_random_uuid no_recipe_store (length (shopping_lists no_recipe_store)),
             itemCount = 0\<rparr>, s')"
    and "new_items no_recipe_store s' = []"
    by blast
  then show ?thesis
    by (simp add: new_items_def no_recipe_store_def mk_store_def)
qed

text \<open>
  C6. With no signed-in user, \<^verbatim>\<open>generateShoppingList\<close> fails with the
  not-authenticated error and leaves the store exactly as it was: no table is read or
  written, and the trace of requests is unchanged.
\<close>

theorem not_authenticated_no_work:
  assumes "auth_user s = None"
  shows "generateShoppingList mealPlanId startDate endDate s = (Inl Not_authenticated, s)"
  using assms by (simp add: generateShoppingList_def)

theorem not_authenticated_no_work_witness:
  "auth_user (scenario\<lparr>auth_user := None\<rparr>) = None
   \<and> generateShoppingList ''P'' ''2024-01-01'' ''2024-01-07'' (scenario\<lparr>auth_user := None\<rparr>)
       = (Inl Not_authenticated, scenario\<lparr>auth_user := None\<rparr>)"
  using not_authenticated_no_work [of "scenario\<lparr>auth_user := None\<rparr>" "''P'' " "''2024-01-01''" "''2024-01-07''"]
  by simp

text \<open>
  C7. When a read request issued by the run fails (the entries query or an ingredient
  query: request number \<open>i\<close> of the trace, with error \<open>e\<close>), the run returns that
  error, the tables of shopping lists and of items are as before, and every request the
  run issued is a read: nothing was written.
\<close>

theorem read_failure_aborts_before_writes:
  assumes run: "generateShoppingList mealPlanId startDate endDate s = (r, s')"
    and lo: "length (requests s) \<le> i"
    and hi: "i < length (requests s')"
    and rd: "is_read (requests s' ! i)"
    and flt: "fault s i = Some e"
  shows "(r = Inl (MealsError e) \<or> r = Inl (IngredientsError e))
     \<and> shopping_lists s' = shopping_lists s
     \<and> shopping_list_items s' = shopping_list_items s
     \<and> list_all is_read (new_requests s s')"
proof -
  let ?n = "length (requests s)"
  let ?q = "Select_meal_plan_entries mealPlanId startDate endDate"
  let ?s1 = "issue ?q s"
  let ?es = "entries_in_range mealPlanId startDate endDate (meal_plan_entries s)"
  let ?name = "''Shopping List for '' @ startDate @ '' to '' @ endDate"
  from run lo hi obtain u where u: "auth_user s = Some u"
    by (cases "auth_user s") (auto simp add: generateShoppingList_def)
  show ?thesis
  proof (cases "fault s ?n")
    case (Some e0)
    with run u have r: "r = Inl (MealsError e0)" and s': "s' = ?s1"
      by (simp_all add: generateShoppingList_def select_meal_plan_entries_fail)
    from s' lo hi have "i = ?n" by simp
    with Some flt have "e0 = e" by simp
    with r s' show ?thesis by (simp add: new_requests_def)
  next
    case None
    note sel = select_meal_plan_entries_ok [OF None, of mealPlanId startDate endDate]
    obtain r2 s2 where loop: "entries_loop ?es [] ?s1 = (r2, s2)"
      by (cases "entries_loop ?es [] ?s1")
    note fr2 = entries_loop_frame [OF loop]
    from entries_loop_cases [OF loop]
    show ?thesis
    proof (elim disjE conjE exE)
      fix e1 k
      assume k: "k < length (queried ?es)"
        and before: "\<forall>j<k. fault ?s1 (length (requests ?s1) + j) = None"
        and at: "fault ?s1 (length (requests ?s1) + k) = Some e1"
        and r2: "r2 = Inl (IngredientsError e1)"
        and req: "requests s2 = requests ?s1 @ map Select_recipe_ingredients (take (Suc k) (queried ?es))"
      from run u sel loop r2 have r: "r = Inl (IngredientsError e1)" and s': "s' = s2"
        by (simp_all add: generateShoppingList_def)
      have len: "length (requests s') = ?n + 1 + Suc k"
        using s' req k by simp
      have ne: "i \<noteq> ?n"
        using None flt by auto
      have "\<not> i - (?n + 1) < k"
      proof
        assume "i - (?n + 1) < k"
        with before have "fault ?s1 (length (requests ?s1) + (i - (?n + 1))) = None"
          by blast
        moreover have "length (requests ?s1) + (i - (?n + 1)) = i"
          using lo ne by simp
        ultimately show False using flt by simp
      qed
      with lo hi len ne have i: "i = ?n + 1 + k"
        by linarith
      from at flt have "e1 = e" unfolding i by simp
      moreover have "list_all is_read (new_requests s s')"
        using s' req by (simp add: new_requests_def list_all_iff)
      ultimately show ?thesis using r s' fr2 by simp
    next
      assume r2: "r2 = Inr (aggregate (contributions (recipe_ingredients ?s1) ?es) [])"
        and ok: "\<forall>j<length (queried ?es). fault ?s1 (length (requests ?s1) + j) = None"
        and req: "requests s2 = requests ?s1 @ map Select_recipe_ingredients (queried ?es)"
      let ?ing = "aggregate (contributions (recipe_ingredients ?s1) ?es) []"
      let ?row = "new_list_row u mealPlanId ?name s2"
      let ?rows = "map (with_list_id (sl_id ?row)) (map to_item ?ing)"
      have reads_ok: "\<And>j. ?n \<le> j \<Longrightarrow> j < length (requests s2) \<Longrightarrow> fault s j = None"
      proof -
        fix j assume j: "?n \<le> j" "j < length (requests s2)"
        show "fault s j = None"
        proof (cases "j = ?n")
          case True
          with None show ?thesis by simp
        next
          case False
          with j req have "j - (?n + 1) < length (queried ?es)"
            by simp
          with ok have "fault ?s1 (length (requests ?s1) + (j - (?n + 1))) = None"
            by blast
          moreover have "length (requests ?s1) + (j - (?n + 1)) = j"
            using j False by simp
          ultimately show ?thesis by simp
        qed
      qed
      have tail: "\<exists>ws. ws \<noteq> [] \<and> requests s' = requests s2 @ ws \<and> list_all (\<lambda>q. \<not> is_read q) ws"
      proof (cases "fault s2 (length (requests s2))")
        case (Some e2)
        with run u sel loop r2 have "s' = issue (Insert_shopping_lists ?row) s2"
          by (simp add: generateShoppingList_def insert_shopping_list_fail)
        then show ?thesis by simp
      next
        case None
        note ins = insert_shopping_list_ok [OF None, of u mealPlanId ?name]
        let ?s3 = "(issue (Insert_shopping_lists ?row) s2)\<lparr>shopping_lists := shopping_lists s2 @ [?row]\<rparr>"
        show ?thesis
        proof (cases "fault ?s3 (length (requests ?s3))")
          case (Some e3)
          with run u sel loop r2 ins have "s' = issue (Insert_shopping_list_items ?rows) ?s3"
            by (simp add: generateShoppingList_def insert_shopping_list_items_fail Let_def)
          then show ?thesis by simp
        next
          case None
          with run u sel loop r2 ins have "s' = (issue (Insert_shopping_list_items ?rows) ?s3)
              \<lparr>shopping_list_items := shopping_list_items ?s3 @ ?rows\<rparr>"
            by (simp add: generateShoppingList_def insert_shopping_list_items_ok Let_def)
          then show ?thesis by simp
        qed
      qed
      then obtain ws where ws: "requests s' = requests s2 @ ws" "list_all (\<lambda>q. \<not> is_read q) ws"
        by blast
      have "i < length (requests s2)"
      proof (rule ccontr)
        assume "\<not> i < length (requests s2)"
        with ws(1) hi have "requests s' ! i = ws ! (i - length (requests s2))"
          and "i - length (requests s2) < length ws"
          by (simp_all add: nth_append)
        with ws(2) rd show False by (simp add: list_all_length)
      qed
      from reads_ok [OF lo this] flt show ?thesis by simp
    qed
  qed
qed

theorem read_failure_aborts_before_writes_witness:
  "generateShoppingList ''P'' ''2024-01-01'' ''2024-01-07'' failing_store
     = (Inl (IngredientsError ''timeout''), failing_after)
   \<and> requests failing_after ! 1 = Select_recipe_ingredients ''A''
   \<and> fault failing_store 1 = Some ''timeout''
   \<and> shopping_lists failing_after = shopping_lists failing_store
   \<and> shopping_list_items failing_after = shopping_list_items failing_store
   \<and> new_requests failing_store failing_after =
       [Select_meal_plan_entries ''P'' ''2024-01-01'' ''2024-01-07'',
        Select_recipe_ingredients ''A'']"
proof -
  have lo: "length (requests failing_store) \<le> 1"
    and hi: "1 < length (requests failing_after)"
    and rd: "is_read (requests failing_after ! 1)"
    and flt: "fault failing_store 1 = Some ''timeout''"
    by (simp_all add: example_defs mk_store_def)
  from read_failure_aborts_before_writes [OF failing_run lo hi rd flt] failing_run flt
  show ?thesis
    by (simp add: new_requests_def example_defs mk_store_def)
qed

text \<open>
  C8. The aggregation depends on the entry and ingredient data only. Two runs with the
  same arguments on stores that hold the same entries and the same ingredients, and may
  differ in everything else (user, existing lists and items, trace, failure behaviour,
  identifiers), both successful, insert the same items in the same order, the list
  identifier apart, and report the same count. In particular a second run on the store the
  first run left behind repeats the items of the first.
\<close>

theorem same_data_same_items:
  assumes "meal_plan_entries s1 = meal_plan_entries s2"
    and "recipe_ingredients s1 = recipe_ingredients s2"
    and "generateShoppingList mealPlanId startDate endDate s1 = (Inr r1, s1')"
    and "generateShoppingList mealPlanId startDate endDate s2 = (Inr r2, s2')"
  shows "map item_content (new_items s1 s1') = map item_content (new_items s2 s2')
     \<and> itemCount r1 = itemCount r2"
  using generateShoppingList_success [OF assms(3)] generateShoppingList_success [OF assms(4)]
    success_new_items [OF assms(3)] success_new_items [OF assms(4)] assms(1,2)
  by (auto simp add: item_content_def with_list_id_def)

theorem same_data_same_items_witness:
  "meal_plan_entries scenario = meal_plan_entries scenario_after
   \<and> recipe_ingredients scenario = recipe_ingredients scenario_after
   \<and> generateShoppingList ''P'' ''2024-01-01'' ''2024-01-07'' scenario
       = (Inr \<lparr>success = True, listId = ''list-'', itemCount = 3\<rparr>, scenario_after)
   \<and> generateShoppingList ''P'' ''2024-01-01'' ''2024-01-07'' scenario_after
       = (Inr \<lparr>success = True, listId = ''list-i'', itemCount = 3\<rparr>,
          snd (generateShoppingList ''P'' ''2024-01-01'' ''2024-01-07'' scenario_after))
   \<and> map item_content (new_items scenario scenario_after)
       = map item_content (new_items scenario_after
           (snd (generateShoppingList ''P'' ''2024-01-01'' ''2024-01-07'' scenario_after)))"
proof -
  have e: "meal_plan_entries scenario = meal_plan_entries scenario_after"
    and i: "recipe_ingredients scenario = recipe_ingredients scenario_after"
    by (simp_all add: scenario_after_def)
  from same_data_same_items [OF e i scenario_run scenario_second_run] e i scenario_run
    scenario_second_run
  show ?thesis by simp
qed

text \<open>
  C9. A successful run adds exactly one row to the shopping lists: its owner is the
  signed-in user, its meal plan is the given one, its name is
  \<^verbatim>\<open>Shopping List for \<close>\<open>startDate\<close>\<^verbatim>\<open> to \<close>\<open>endDate\<close>, and its identifier is
  the one returned.
\<close>

theorem new_list_for_user_and_plan:
  assumes "generateShoppingList mealPlanId startDate endDate s = (Inr r, s')"
  shows "\<exists>userId. auth_user s = Some userId
     \<and> shopping_lists s' = shopping_lists s @
          [\<lparr>sl_id = listId r, sl_user_id = userId, sl_meal_plan_id = Some mealPlanId,
            sl_name = ''Shopping List for '' @ startDate @ '' to '' @ endDate\<rparr>]"
  using generateShoppingList_success [OF assms] by (auto simp add: new_list_row_def)

theorem new_list_for_user_and_plan_witness:
  "generateShoppingList ''P'' ''2024-01-01'' ''2024-01-07'' scenario
     = (Inr \<lparr>success = True, listId = ''list-'', itemCount = 3\<rparr>, scenario_after)
   \<and> auth_user scenario = Some ''u1''
   \<and> shopping_lists scenario_after = shopping_lists scenario @
        [\<lparr>sl_id = ''list-'', sl_user_id = ''u1'', sl_meal_plan_id = Some ''P'',
          sl_name = ''Shopping List for 2024-01-01 to 2024-01-07''\<rparr>]"
  using new_list_for_user_and_plan [OF scenario_run] scenario_run
  by (simp add: scenario_def mk_store_def)

text \<open>
  C10. No inserted product name contains the separator \<^verbatim>\<open>|\<close>: the product name
  of every inserted item is the name of a visited ingredient up to its first separator
  (the whole name when it has none), and the unit of the item is the unit of that
  ingredient, the first one stored under its key. Conversely every visited ingredient has
  such an item: its product name is the ingredient's name up to the first separator and
  its unit is the unit of the first visited ingredient with the same key.
\<close>

theorem product_name_first_segment:
  assumes "generateShoppingList mealPlanId startDate endDate s = (Inr r, s')"
  shows "(\<forall>item \<in> set (new_items s s').
            CHR ''|'' \<notin> set (product_name item)
            \<and> (\<exists>first \<in> set (contributions (recipe_ingredients s)
                     (entries_in_range mealPlanId startDate endDate (meal_plan_entries s))).
                 find (\<lambda>d. key_of (snd d) = key_of (snd first))
                   (contributions (recipe_ingredients s)
                      (entries_in_range mealPlanId startDate endDate (meal_plan_entries s)))
                   = Some first
                 \<and> product_name item
                     = takeWhile (\<lambda>x. x \<noteq> CHR ''|'') (ingredient_name (snd first))
                 \<and> item_unit item = unit (snd first)))
     \<and> (\<forall>c \<in> set (contributions (recipe_ingredients s)
                     (entries_in_range mealPlanId startDate endDate (meal_plan_entries s))).
          \<exists>item \<in> set (new_items s s').
          \<exists>first.
            find (\<lambda>d. key_of (snd d) = key_of (snd c))
              (contributions (recipe_ingredients s)
                 (entries_in_range mealPlanId startDate endDate (meal_plan_entries s))) = Some first
            \<and> product_name item = takeWhile (\<lambda>x. x \<noteq> CHR ''|'') (ingredient_name (snd c))
            \<and> item_unit item = unit (snd first))"
proof -
  let ?cs = "contributions (recipe_ingredients s)
               (entries_in_range mealPlanId startDate endDate (meal_plan_entries s))"
  note items = success_new_items [OF assms]
  have every: "\<forall>item \<in> set (new_items s s').
      CHR ''|'' \<notin> set (product_name item)
      \<and> (\<exists>first \<in> set ?cs.
            find (\<lambda>d. key_of (snd d) = key_of (snd first)) ?cs = Some first
            \<and> product_name item
                = takeWhile (\<lambda>x. x \<noteq> CHR ''|'') (ingredient_name (snd first))
            \<and> item_unit item = unit (snd first))"
  proof
    fix item assume "item \<in> set (new_items s s')"
    then obtain k v where kv: "(k, v) \<in> set (aggregate ?cs [])"
      and item: "item = with_list_id (listId r) (to_item (k, v))"
      unfolding items by auto
    from item have name: "product_name item = takeWhile (\<lambda>c. c \<noteq> CHR ''|'') k"
      and unit: "item_unit item = total_unit v"
      by (simp_all add: with_list_id_def to_item_simps)
    from name have "CHR ''|'' \<notin> set (product_name item)"
      by (auto dest: set_takeWhileD)
    moreover from aggregate_entry [OF kv] obtain first where
      "first \<in> set ?cs" "key_of (snd first) = k"
      "find (\<lambda>d. key_of (snd d) = k) ?cs = Some first"
      "v = \<lparr>total_quantity = total_for k ?cs, total_unit = unit (snd first)\<rparr>"
      by blast
    with name unit have "\<exists>first \<in> set ?cs.
        find (\<lambda>d. key_of (snd d) = key_of (snd first)) ?cs = Some first
        \<and> product_name item
            = takeWhile (\<lambda>x. x \<noteq> CHR ''|'') (ingredient_name (snd first))
        \<and> item_unit item = unit (snd first)"
      using key_first_segment [of "snd first"] by auto
    ultimately show "CHR ''|'' \<notin> set (product_name item)
      \<and> (\<exists>first \<in> set ?cs.
            find (\<lambda>d. key_of (snd d) = key_of (snd first)) ?cs = Some first
            \<and> product_name item
                = takeWhile (\<lambda>x. x \<noteq> CHR ''|'') (ingredient_name (snd first))
            \<and> item_unit item = unit (snd first))"
      by blast
  qed
  have each: "\<forall>c \<in> set ?cs. \<exists>item \<in> set (new_items s s'). \<exists>first.
      find (\<lambda>d. key_of (snd d) = key_of (snd c)) ?cs = Some first
      \<and> product_name item = takeWhile (\<lambda>x. x \<noteq> CHR ''|'') (ingredient_name (snd c))
      \<and> item_unit item = unit (snd first)"
  proof
    fix c assume "c \<in> set ?cs"
    from aggregate_member [OF this] obtain c0 where
      c0: "find (\<lambda>d. key_of (snd d) = key_of (snd c)) ?cs = Some c0"
      and mem: "(key_of (snd c), \<lparr>total_quantity = total_for (key_of (snd c)) ?cs,
                           total_unit = unit (snd c0)\<rparr>) \<in> set (aggregate ?cs [])"
      by blast
    let ?item = "with_list_id (listId r) (to_item (key_of (snd c),
        \<lparr>total_quantity = total_for (key_of (snd c)) ?cs, total_unit = unit (snd c0)\<rparr>))"
    from mem have "?item \<in> set (new_items s s')"
      unfolding items by (simp add: image_iff) blast
    moreover have "product_name ?item = takeWhile (\<lambda>x. x \<noteq> CHR ''|'') (ingredient_name (snd c))"
      by (simp add: with_list_id_def to_item_simps key_first_segment)
    moreover have "item_unit ?item = unit (snd c0)"
      by (simp add: with_list_id_def to_item_simps)
    ultimately show "\<exists>item \<in> set (new_items s s'). \<exists>first.
      find (\<lambda>d. key_of (snd d) = key_of (snd c)) ?cs = Some first
      \<and> product_name item = takeWhile (\<lambda>x. x \<noteq> CHR ''|'') (ingredient_name (snd c))
      \<and> item_unit item = unit (snd first)"
      using c0 by blast
  qed
  from every each show ?thesis by blast
qed

theorem product_name_first_segment_witness:
  "generateShoppingList ''P'' ''2024-01-01'' ''2024-01-07'' pipe_store
     = (Inr \<lparr>success = True, listId = ''list-'', itemCount = 2\<rparr>,
        snd (generateShoppingList ''P'' ''2024-01-01'' ''2024-01-07'' pipe_store))
   \<and> map item_content
        (new_items pipe_store (snd (generateShoppingList ''P'' ''2024-01-01'' ''2024-01-07'' pipe_store)))
       = [(''Oil'', 3, Some ''ml'', False), (''Oil'', 4, None, False)]"
  using product_name_first_segment [OF pipe_run] pipe_run
  by (simp add: new_items_def item_content_def example_defs run_defs)

end
